theory Spec2Isabelle
  imports Complex_Main "HOL-Library.Word" "HOL-Library.Multiset"
begin

unbundle bit_operations_syntax

section \<open>Errors and helpers shared by the three commands\<close>

text \<open>
  Every fatal exit and every run-time panic of the Go code is a value of \<open>error\<close>.
  Floating-point values (\<open>float64\<close>) are idealised as rationals: the comparisons the code
  makes are the comparisons of the values, and rounding of sums is not modelled.
\<close>

datatype error =
    FlagDbDirNeeded
  | InvalidSortBy string
  | QueryCovOutOfRange
  | TargetCovOutOfRange
  | InvalidDatabase string
  | OutFileIsInput
  | EngineError string
  | QueryCovNotAboveFPR rat rat
  | FailedToParse string string
  | ReadError string string
  | IndexOutOfRange
  | NegativeShift

text \<open>
  Modelled from the spec: \<open>checkError\<close> is defined in a file of the package that is not
  among the sources. Section 7 of the
  specification: "fatal errors produce a non-zero exit with one descriptive line". A call
  with a nil error returns, a call with an error ends the program with it.
\<close>

definition checkError :: "error option \<Rightarrow> error + unit" where
  "checkError err = (case err of None \<Rightarrow> Inr () | Some e \<Rightarrow> Inl e)"

text \<open>Sequencing of fallible steps: the first error ends the run.\<close>

definition bindE :: "error + 'a \<Rightarrow> ('a \<Rightarrow> error + 'b) \<Rightarrow> error + 'b" where
  "bindE r f = (case r of Inl e \<Rightarrow> Inl e | Inr v \<Rightarrow> f v)"

text \<open>\<open>strconv.Itoa\<close>: the decimal digits of an integer, with a minus sign when negative.\<close>

definition digit_char :: "nat \<Rightarrow> char" where
  "digit_char d = ''0123456789'' ! d"

function showNat :: "nat \<Rightarrow> string" where
  "showNat n = (if n < 10 then [digit_char n] else showNat (n div 10) @ [digit_char (n mod 10)])"
  by pat_completeness auto
termination
  by (relation "measure (\<lambda>n. n)") auto

definition Itoa :: "int \<Rightarrow> string" where
  "Itoa i = (if i < 0 then CHR ''-'' # showNat (nat (- i)) else showNat (nat i))"

section \<open>kmcp search: receiving results and writing them\<close>

text \<open>
  \<open>Match\<close> and \<open>QueryResult\<close> are declared outside \<open>src/\<close>; the fields below are the ones
  \<open>searchCmd\<close> reads, with the types its conversions imply. \<open>Matches\<close> is a pointer to a
  slice: \<open>None\<close> is the nil pointer of a query without matches.
\<close>

record Match =
  mTarget :: "string list"
  mTargetIdx :: "32 word list"
  mGenomeSize :: "64 word list"
  mNumKmers :: int
  mQCov :: rat
  mTCov :: rat
  mJaccardIndex :: rat



text \<open>An output record: the fifteen tab-separated fields of one line, in column order.\<close>

type_synonym fields = "string list"

definition write_record :: "fields \<Rightarrow> string" where
  "write_record fs = concat (map (\<lambda>f. f @ [CHR 0x09]) (butlast fs)) @ last fs @ [CHR 0x0A]"








definition map_store :: "'k \<Rightarrow> 'v \<Rightarrow> ('k \<times> 'v) list \<Rightarrow> ('k \<times> 'v) list" where
  "map_store k v m = (if k \<in> fst ` set m then map (\<lambda>(k', v'). if k' = k then (k', v) else (k', v')) m
                      else m @ [(k, v)])"











subsection \<open>A concrete search run\<close>







section \<open>kmcp index: grouping buckets into blocks\<close>

text \<open>
  \<open>UnikFileInfo\<close> and \<open>UnikFileInfoGroup\<close> are declared outside \<open>src/\<close>; the fields are
  the ones \<open>indexCmd\<close> uses. A nil slice and an empty slice are both the empty list: the
  buckets of the command are either nil or non-empty.
\<close>

record UnikFileInfo =
  Path :: string
  Name :: string
  Index :: "32 word"
  Kmers :: "64 word"

record UnikFileInfoGroup =
  Infos :: "UnikFileInfo list"
  gKmers :: "64 word"

text \<open>A bucket becomes a group with the (wrapping) sum of its k-mer numbers.\<close>

definition group_of :: "UnikFileInfo list \<Rightarrow> UnikFileInfoGroup" where
  "group_of infos = \<lparr>Infos = infos, gKmers = foldl (\<lambda>total info. total + Kmers info) 0 infos\<rparr>"














subsection \<open>A concrete set of references\<close>

definition ex_info :: "string \<Rightarrow> 64 word \<Rightarrow> UnikFileInfo" where
  "ex_info n k = \<lparr>Path = n, Name = n, Index = 0, Kmers = k\<rparr>"


section \<open>kmcp index: filling the signatures of a block\<close>

text \<open>
  A \<open>.unik\<close> file as the reader of package \<open>unikmer\<close> (outside the repository) delivers it:
  the flag \<open>IsHashed\<close>, the codes returned by \<open>ReadCodeWithTaxid\<close> up to the end of the file,
  and the error, if any, that ends the reading instead of \<open>io.EOF\<close>. The file system
  \<open>fs\<close> maps a path to such a file or to the error of opening it.
\<close>

record artifact =
  IsHashed :: bool
  Codes :: "64 word list"
  ReadErr :: "string option"

type_synonym filesystem = "string \<Rightarrow> string + artifact"

text \<open>
  \<open>hash64\<close> and \<open>hashLocationsFaster\<close> are declared outside \<open>src/\<close> and are parameters
  (\<open>hash64\<close>, \<open>hlf\<close>) of the model, as is the order \<open>byName\<close> in which
  \<open>sorts.Quicksort(UnikFileInfosByName(infos))\<close> leaves the files of a group.
\<close>

type_synonym hashLocations = "64 word \<Rightarrow> int \<Rightarrow> 64 word \<Rightarrow> int list"

text \<open>\<open>sigs[loc] |= 1 << (7 - _k)\<close>, with the two panics of the operation.\<close>

definition or_bit :: "8 word list \<Rightarrow> nat \<Rightarrow> int \<Rightarrow> error + 8 word list" where
  "or_bit sigs k loc =
     (if 7 < k then Inl NegativeShift
      else if loc < 0 \<or> int (length sigs) \<le> loc then Inl IndexOutOfRange
      else Inr (sigs[nat loc := sigs ! nat loc OR push_bit (7 - k) 1]))"

fun or_locs :: "8 word list \<Rightarrow> nat \<Rightarrow> int list \<Rightarrow> error + 8 word list" where
  "or_locs sigs k [] = Inr sigs"
| "or_locs sigs k (loc # rest) = bindE (or_bit sigs k loc) (\<lambda>sigs'. or_locs sigs' k rest)"

text \<open>One of the four reading loops: \<open>locs\<close> gives the positions of a code.\<close>

fun read_codes :: "(64 word \<Rightarrow> int list) \<Rightarrow> 8 word list \<Rightarrow> nat \<Rightarrow> 64 word list \<Rightarrow> error + 8 word list" where
  "read_codes locs sigs k [] = Inr sigs"
| "read_codes locs sigs k (code # rest) =
     bindE (or_locs sigs k (locs code)) (\<lambda>sigs'. read_codes locs sigs' k rest)"

definition fill_file ::
  "(64 word \<Rightarrow> 64 word) \<Rightarrow> hashLocations \<Rightarrow> filesystem \<Rightarrow> int \<Rightarrow> 64 word \<Rightarrow>
   8 word list \<Rightarrow> nat \<Rightarrow> UnikFileInfo \<Rightarrow> error + 8 word list" where
  "fill_file hash64 hlf fs numHashes numSigsM1 sigs k info =
     (case fs (Path info) of
        Inl err \<Rightarrow> Inl (ReadError (Path info) err)
      | Inr reader \<Rightarrow>
          (let singleHash = (numHashes = 1) in
           bindE
             (if IsHashed reader then
                (if singleHash
                 then read_codes (\<lambda>code. [uint (code AND numSigsM1)]) sigs k (Codes reader)
                 else read_codes (\<lambda>code. hlf code numHashes numSigsM1) sigs k (Codes reader))
              else
                (if singleHash
                 then read_codes (\<lambda>code. [uint (hash64 code AND numSigsM1)]) sigs k (Codes reader)
                 else read_codes (\<lambda>code. hlf (hash64 code) numHashes numSigsM1) sigs k (Codes reader)))
             (\<lambda>sigs'. case ReadErr reader of
                        None \<Rightarrow> Inr sigs'
                      | Some err \<Rightarrow> Inl (ReadError (Path info) err))))"

text \<open>\<open>for _, info := range infos\<close>: the files of the group in column \<open>_k\<close>.\<close>

fun fill_group ::
  "(64 word \<Rightarrow> 64 word) \<Rightarrow> hashLocations \<Rightarrow> filesystem \<Rightarrow> int \<Rightarrow> 64 word \<Rightarrow>
   8 word list \<Rightarrow> nat \<Rightarrow> UnikFileInfo list \<Rightarrow> error + 8 word list" where
  "fill_group hash64 hlf fs numHashes numSigsM1 sigs k [] = Inr sigs"
| "fill_group hash64 hlf fs numHashes numSigsM1 sigs k (info # rest) =
     bindE (fill_file hash64 hlf fs numHashes numSigsM1 sigs k info)
       (\<lambda>sigs'. fill_group hash64 hlf fs numHashes numSigsM1 sigs' k rest)"

text \<open>\<open>for _k, infos := range _batch\<close>, from column \<open>k\<close> on.\<close>

fun fill_groups ::
  "(64 word \<Rightarrow> 64 word) \<Rightarrow> hashLocations \<Rightarrow> filesystem \<Rightarrow> int \<Rightarrow> 64 word \<Rightarrow>
   8 word list \<Rightarrow> nat \<Rightarrow> UnikFileInfo list list \<Rightarrow> error + 8 word list" where
  "fill_groups hash64 hlf fs numHashes numSigsM1 sigs k [] = Inr sigs"
| "fill_groups hash64 hlf fs numHashes numSigsM1 sigs k (infos # rest) =
     bindE (fill_group hash64 hlf fs numHashes numSigsM1 sigs k infos)
       (\<lambda>sigs'. fill_groups hash64 hlf fs numHashes numSigsM1 sigs' (Suc k) rest)"

text \<open>
  The worker of one group of eight columns: it sorts the files of each group by name,
  collects names, indices and sizes, and fills \<open>numSigs\<close> zero bytes.
\<close>

record batch8s =
  sigs :: "8 word list"
  names :: "string list list"
  indices :: "32 word list list"
  sizes :: "64 word list"

definition fill_batch8 ::
  "(64 word \<Rightarrow> 64 word) \<Rightarrow> hashLocations \<Rightarrow> (UnikFileInfo list \<Rightarrow> UnikFileInfo list) \<Rightarrow>
   filesystem \<Rightarrow> int \<Rightarrow> 64 word \<Rightarrow> UnikFileInfo list list \<Rightarrow> error + batch8s" where
  "fill_batch8 hash64 hlf byName fs numHashes numSigs batch8 =
     (let sorted = map byName batch8;
          numSigsM1 = numSigs - 1
      in bindE (fill_groups hash64 hlf fs numHashes numSigsM1 (replicate (unat numSigs) 0) 0 sorted)
           (\<lambda>sigs'. Inr \<lparr>sigs = sigs',
                         names = map (map Name) sorted,
                         indices = map (map Index) sorted,
                         sizes = map (\<lambda>infos. foldl (\<lambda>size info. size + Kmers info) 0 infos) sorted\<rparr>))"

text \<open>
  The block worker without \<open>--dry-run\<close>: the batch \<open>cols\<close> is cut into groups of eight columns
  (\<open>batch[ii:jj]\<close> for \<open>ii = 0, 8, \<dots>\<close>), each filled by its own worker; the results are
  taken in the order of their numbers, so plane \<open>p\<close> holds the columns \<open>8p \<dots> 8p+7\<close>.
\<close>

definition batch_planes :: "'a list \<Rightarrow> 'a list list" where
  "batch_planes cols = map (\<lambda>p. take 8 (drop (8 * p) cols)) [0..<(length cols + 7) div 8]"

fun fill_planes ::
  "(64 word \<Rightarrow> 64 word) \<Rightarrow> hashLocations \<Rightarrow> (UnikFileInfo list \<Rightarrow> UnikFileInfo list) \<Rightarrow>
   filesystem \<Rightarrow> int \<Rightarrow> 64 word \<Rightarrow> UnikFileInfo list list list \<Rightarrow> error + batch8s list" where
  "fill_planes hash64 hlf byName fs numHashes numSigs [] = Inr []"
| "fill_planes hash64 hlf byName fs numHashes numSigs (batch8 # rest) =
     bindE (fill_batch8 hash64 hlf byName fs numHashes numSigs batch8) (\<lambda>b8.
     bindE (fill_planes hash64 hlf byName fs numHashes numSigs rest) (\<lambda>b8s. Inr (b8 # b8s)))"

record block =
  sigsBlock :: "8 word list list"
  namesBlock :: "string list list"
  indicesBlock :: "32 word list list"
  sizesBlock :: "64 word list"

definition build_block ::
  "(64 word \<Rightarrow> 64 word) \<Rightarrow> hashLocations \<Rightarrow> (UnikFileInfo list \<Rightarrow> UnikFileInfo list) \<Rightarrow>
   filesystem \<Rightarrow> int \<Rightarrow> 64 word \<Rightarrow> UnikFileInfo list list \<Rightarrow> error + block" where
  "build_block hash64 hlf byName fs numHashes numSigs cols =
     bindE (fill_planes hash64 hlf byName fs numHashes numSigs (batch_planes cols)) (\<lambda>b8s.
       Inr \<lparr>sigsBlock = map sigs b8s,
            namesBlock = concat (map names b8s),
            indicesBlock = concat (map indices b8s),
            sizesBlock = concat (map sizes b8s)\<rparr>)"

text \<open>The rows written to the block file: row \<open>ii\<close> takes byte \<open>ii\<close> of every plane.\<close>

definition block_rows :: "64 word \<Rightarrow> block \<Rightarrow> 8 word list list" where
  "block_rows numSigs blk =
     map (\<lambda>ii. map (\<lambda>plane. plane ! ii) (sigsBlock blk)) [0..<unat numSigs]"

text \<open>The Bloom position of a code of a file when a single hash is used.\<close>

definition single_position :: "(64 word \<Rightarrow> 64 word) \<Rightarrow> 64 word \<Rightarrow> artifact \<Rightarrow> 64 word \<Rightarrow> 64 word" where
  "single_position hash64 numSigs reader code =
     (if IsHashed reader then code else hash64 code) AND (numSigs - 1)"

text \<open>Row \<open>r\<close> is a position of some code of some file of the group.\<close>

definition group_hits :: "(64 word \<Rightarrow> 64 word) \<Rightarrow> filesystem \<Rightarrow> 64 word \<Rightarrow> UnikFileInfo list \<Rightarrow> nat \<Rightarrow> bool" where
  "group_hits hash64 fs numSigs infos r \<longleftrightarrow>
     (\<exists>info\<in>set infos. \<exists>reader. fs (Path info) = Inr reader \<and>
        (\<exists>code\<in>set (Codes reader). unat (single_position hash64 numSigs reader code) = r))"

definition readable :: "filesystem \<Rightarrow> UnikFileInfo \<Rightarrow> bool" where
  "readable fs info \<longleftrightarrow> (\<exists>reader. fs (Path info) = Inr reader \<and> ReadErr reader = None)"

text \<open>
  For the proofs: \<open>sg'\<close> is \<open>sg\<close> with bit \<open>j\<close> of byte \<open>r\<close> set in addition wherever
  \<open>S r j\<close> holds.
\<close>

definition filled :: "8 word list \<Rightarrow> 8 word list \<Rightarrow> (nat \<Rightarrow> nat \<Rightarrow> bool) \<Rightarrow> bool" where
  "filled sg sg' S \<longleftrightarrow>
     length sg' = length sg \<and>
     (\<forall>r<length sg. \<forall>j. bit (sg' ! r) j \<longleftrightarrow> bit (sg ! r) j \<or> S r j)"

subsection \<open>A concrete block of two columns\<close>

text \<open>
  Two files, the first hashed, the second not; \<open>ex_hash64\<close>, \<open>ex_hlf\<close> and \<open>ex_byName\<close>
  stand in for the functions declared outside \<open>src/\<close>.
\<close>

definition ex_hash64 :: "64 word \<Rightarrow> 64 word" where
  "ex_hash64 x = x + 1"

definition ex_hlf :: hashLocations where
  "ex_hlf code numHashes numSigsM1 = []"

definition ex_byName :: "UnikFileInfo list \<Rightarrow> UnikFileInfo list" where
  "ex_byName infos = infos"

definition ex_fs :: filesystem where
  "ex_fs path =
     (if path = ''a.unik'' then Inr \<lparr>IsHashed = True, Codes = [3, 13], ReadErr = None\<rparr>
      else if path = ''b.unik'' then Inr \<lparr>IsHashed = False, Codes = [5], ReadErr = None\<rparr>
      else Inl ''no such file'')"

definition ex_cols :: "UnikFileInfo list list" where
  "ex_cols = [[ex_info ''a.unik'' 2], [ex_info ''b.unik'' 1]]"


section \<open>kmcp profile\<close>

text \<open>
  \<open>strconv.Atoi\<close>: an optional sign, then decimal digits only, and a value that fits
  a 64-bit \<open>int\<close>; anything else is an error (\<open>None\<close>).
\<close>

definition is_digit :: "char \<Rightarrow> bool" where
  "is_digit c \<longleftrightarrow> c \<in> set ''0123456789''"

definition digit_val :: "char \<Rightarrow> nat" where
  "digit_val c = of_char c - 48"

definition digits_val :: "string \<Rightarrow> nat" where
  "digits_val ds = foldl (\<lambda>n c. 10 * n + digit_val c) 0 ds"

definition Atoi :: "string \<Rightarrow> int option" where
  "Atoi s =
     (let neg = (case s of c # _ \<Rightarrow> c = CHR ''-'' | [] \<Rightarrow> False);
          ds = (case s of c # r \<Rightarrow> if c = CHR ''-'' \<or> c = CHR ''+'' then r else s | [] \<Rightarrow> [])
      in if ds = [] \<or> \<not> list_all is_digit ds then None
         else (let v = (if neg then - int (digits_val ds) else int (digits_val ds))
               in if v < - (2 ^ 63) \<or> 2 ^ 63 \<le> v then None else Some v))"

text \<open>
  \<open>strconv.ParseFloat\<close> belongs to the Go standard library and is a parameter
  (\<open>ParseFloat\<close>) of the model; \<open>None\<close> is its error.
\<close>

type_synonym parseFloat = "string \<Rightarrow> rat option"

record MatchResult =
  Query :: string
  QLen :: int
  QKmers :: int
  FPR :: rat
  Hits :: int
  Target :: string
  FragIdx :: int
  IdxNum :: int
  MKmers :: int
  QCov :: rat

text \<open>\<open>(*items)[i]\<close>: reading a field of the split line; out of range panics.\<close>

definition item :: "string list \<Rightarrow> nat \<Rightarrow> error + string" where
  "item items i = (if i < length items then Inr (items ! i) else Inl IndexOutOfRange)"

definition parse_float :: "parseFloat \<Rightarrow> string \<Rightarrow> string \<Rightarrow> error + rat" where
  "parse_float ParseFloat what s =
     (case ParseFloat s of None \<Rightarrow> Inl (FailedToParse what s) | Some v \<Rightarrow> Inr v)"

definition parse_int :: "string \<Rightarrow> string \<Rightarrow> error + int" where
  "parse_int what s = (case Atoi s of None \<Rightarrow> Inl (FailedToParse what s) | Some v \<Rightarrow> Inr v)"

text \<open>
  \<open>parseMatchResult\<close>, on the fields \<open>items\<close> that \<open>stringSplitN\<close> (declared outside
  \<open>src/\<close>) leaves for the line. \<open>Inr None\<close> is the return \<open>(m, false)\<close>, after which the
  caller skips the line; \<open>Inl\<close> is the fatal exit of \<open>checkError\<close>.
\<close>

definition parseMatchResult ::
  "parseFloat \<Rightarrow> string list \<Rightarrow> rat \<Rightarrow> rat \<Rightarrow> error + MatchResult option" where
  "parseMatchResult ParseFloat items maxPFR minQcov =
     bindE (item items 3) (\<lambda>i3.
     bindE (parse_float ParseFloat ''FPR'' i3) (\<lambda>fpr.
     if fpr > maxPFR then Inr None else
     bindE (item items 9) (\<lambda>i9.
     bindE (parse_float ParseFloat ''qCov'' i9) (\<lambda>qcov.
     if qcov < minQcov then Inr None else
     bindE (item items 0) (\<lambda>i0.
     bindE (item items 1) (\<lambda>i1.
     bindE (parse_int ''qLen'' i1) (\<lambda>qlen.
     bindE (item items 2) (\<lambda>i2.
     bindE (parse_int ''qKmers'' i2) (\<lambda>qkmers.
     bindE (item items 4) (\<lambda>i4.
     bindE (parse_int ''hits'' i4) (\<lambda>hits.
     bindE (item items 5) (\<lambda>i5.
     bindE (item items 6) (\<lambda>i6.
     bindE (parse_int ''fragIdx'' i6) (\<lambda>fragidx.
     bindE (item items 7) (\<lambda>i7.
     bindE (parse_int ''IdxNum'' i7) (\<lambda>idxnum.
     bindE (item items 8) (\<lambda>i8.
     bindE (parse_int ''mKmers'' i8) (\<lambda>mkmers.
       Inr (Some \<lparr>Query = i0, QLen = qlen, QKmers = qkmers, FPR = fpr, Hits = hits,
                  Target = i5, FragIdx = fragidx, IdxNum = idxnum, MKmers = mkmers,
                  QCov = qcov\<rparr>)))))))))))))))))))"

text \<open>
  A target of the profile. The slices have one entry per fragment; a target in the
  profile has at least one (its creation is followed by an index into \<open>Match\<close>), so the
  divisions by \<open>len(t.Match)\<close> never divide by zero.
\<close>

record Target =
  tName :: string
  Match :: "rat list"
  UniqMatch :: "int list"
  FragLens :: "64 word list"
  SumUniqMatch :: int
  FragsProp :: rat
  MeanAbundance :: rat

text \<open>
  The two Go maps, keyed by the hash of the target name, are association lists with
  distinct keys. \<open>xxh3.HashString\<close> lies outside the repository and is the parameter
  \<open>hashString\<close>. Go ranges over a map in an unspecified order; the model ranges in the
  order of first insertion.
\<close>

type_synonym profile = "(64 word \<times> Target) list"
type_synonym matches = "(64 word \<times> MatchResult list) list"

definition new_target :: "MatchResult \<Rightarrow> error + Target" where
  "new_target m =
     (if IdxNum m < 0 then Inl IndexOutOfRange
      else Inr \<lparr>tName = Target m,
                Match = replicate (nat (IdxNum m)) 0,
                UniqMatch = replicate (nat (IdxNum m)) 0,
                FragLens = replicate (nat (IdxNum m)) 0,
                SumUniqMatch = 0, FragsProp = 0, MeanAbundance = 0\<rparr>)"

text \<open>\<open>xs[i] += v\<close> on a slice, with the panic of an index out of range.\<close>

definition add_at :: "'a::plus list \<Rightarrow> int \<Rightarrow> 'a \<Rightarrow> error + 'a list" where
  "add_at xs i v =
     (if i < 0 \<or> int (length xs) \<le> i then Inl IndexOutOfRange
      else Inr (xs[nat i := xs ! nat i + v]))"

text \<open>The body of \<open>for _, m = range ms\<close>, for the group \<open>ms\<close> of \<open>n\<close> matches under key \<open>h\<close>.\<close>

definition credit_match :: "profile \<Rightarrow> 64 word \<Rightarrow> nat \<Rightarrow> MatchResult \<Rightarrow> error + profile" where
  "credit_match prof h n m =
     bindE (case map_of prof h of Some t \<Rightarrow> Inr t | None \<Rightarrow> new_target m) (\<lambda>t.
     bindE (add_at (Match t) (FragIdx m) (1 / of_nat n)) (\<lambda>match'.
     bindE (if n = 1 then add_at (UniqMatch t) (FragIdx m) 1 else Inr (UniqMatch t)) (\<lambda>uniq'.
     bindE (add_at (FragLens t) (FragIdx m) (of_int (QLen m))) (\<lambda>lens'.
       Inr (map_store h (t\<lparr>tName := Target m, Match := match', UniqMatch := uniq',
                            FragLens := lens'\<rparr>) prof)))))"

fun credit_group :: "profile \<Rightarrow> 64 word \<Rightarrow> nat \<Rightarrow> MatchResult list \<Rightarrow> error + profile" where
  "credit_group prof h n [] = Inr prof"
| "credit_group prof h n (m # ms) =
     bindE (credit_match prof h n m) (\<lambda>prof'. credit_group prof' h n ms)"

text \<open>\<open>for h, ms = range matches\<close>.\<close>

fun credit_matches :: "profile \<Rightarrow> matches \<Rightarrow> error + profile" where
  "credit_matches prof [] = Inr prof"
| "credit_matches prof ((h, ms) # rest) =
     bindE (credit_group prof h (length ms) ms) (\<lambda>prof'. credit_matches prof' rest)"

text \<open>\<open>matches[hTarget] = append(matches[hTarget], match)\<close>.\<close>

definition add_match :: "(string \<Rightarrow> 64 word) \<Rightarrow> matches \<Rightarrow> MatchResult \<Rightarrow> matches" where
  "add_match hashString ms match =
     (let hTarget = hashString (Target match)
      in map_store hTarget ((case map_of ms hTarget of None \<Rightarrow> [] | Some l \<Rightarrow> l) @ [match]) ms)"

text \<open>The state of the loop over the lines of one file, and one round of the loop.\<close>

record scan_state =
  prof :: profile
  pending_matches :: matches
  prevQuery :: string

definition scan_line ::
  "parseFloat \<Rightarrow> (string \<Rightarrow> 64 word) \<Rightarrow> rat \<Rightarrow> rat \<Rightarrow> scan_state \<Rightarrow> string list \<Rightarrow> error + scan_state" where
  "scan_line ParseFloat hashString maxFPR minQcov st items =
     bindE (parseMatchResult ParseFloat items maxFPR minQcov) (\<lambda>r.
       case r of
         None \<Rightarrow> Inr st
       | Some match \<Rightarrow>
           bindE (if prevQuery st \<noteq> Query match
                  then bindE (credit_matches (prof st) (pending_matches st))
                         (\<lambda>p. Inr (st\<lparr>prof := p, pending_matches := []\<rparr>))
                  else Inr st) (\<lambda>st1.
             Inr (st1\<lparr>pending_matches := add_match hashString (pending_matches st1) match,
                      prevQuery := Query match\<rparr>)))"

fun scan_lines ::
  "parseFloat \<Rightarrow> (string \<Rightarrow> 64 word) \<Rightarrow> rat \<Rightarrow> rat \<Rightarrow> scan_state \<Rightarrow> string list list \<Rightarrow> error + scan_state" where
  "scan_lines ParseFloat hashString maxFPR minQcov st [] = Inr st"
| "scan_lines ParseFloat hashString maxFPR minQcov st (items # rest) =
     bindE (scan_line ParseFloat hashString maxFPR minQcov st items)
       (\<lambda>st'. scan_lines ParseFloat hashString maxFPR minQcov st' rest)"

text \<open>
  One input file, as the list of its split lines: the first line is passed over, the
  others are scanned, and the matches of the last query are credited after the loop.
\<close>

definition profile_file ::
  "parseFloat \<Rightarrow> (string \<Rightarrow> 64 word) \<Rightarrow> rat \<Rightarrow> rat \<Rightarrow> profile \<Rightarrow> string list list \<Rightarrow> error + profile" where
  "profile_file ParseFloat hashString maxFPR minQcov p lines =
     bindE (scan_lines ParseFloat hashString maxFPR minQcov
              \<lparr>prof = p, pending_matches = [], prevQuery = ''''\<rparr> (drop 1 lines))
       (\<lambda>st. credit_matches (prof st) (pending_matches st))"

fun profile_files ::
  "parseFloat \<Rightarrow> (string \<Rightarrow> 64 word) \<Rightarrow> rat \<Rightarrow> rat \<Rightarrow> profile \<Rightarrow> string list list list \<Rightarrow> error + profile" where
  "profile_files ParseFloat hashString maxFPR minQcov p [] = Inr p"
| "profile_files ParseFloat hashString maxFPR minQcov p (file # rest) =
     bindE (profile_file ParseFloat hashString maxFPR minQcov p file)
       (\<lambda>p'. profile_files ParseFloat hashString maxFPR minQcov p' rest)"

text \<open>
  The loop over the profile after the files: the statistics of a target, and whether
  it is kept. \<open>None\<close> is a target deleted from the profile.
\<close>

definition score_target :: "int \<Rightarrow> int \<Rightarrow> rat \<Rightarrow> Target \<Rightarrow> Target option" where
  "score_target minReads minUReads minFragsProp t =
     (let t1 = t\<lparr>FragsProp := FragsProp t + of_nat (length (filter (\<lambda>c. c > of_int minReads) (Match t))),
                 MeanAbundance := MeanAbundance t + sum_list (Match t)\<rparr>;
          t2 = t1\<lparr>FragsProp := FragsProp t1 / of_nat (length (Match t1))\<rparr>
      in if FragsProp t2 < minFragsProp then None
         else (let t3 = t2\<lparr>SumUniqMatch := SumUniqMatch t2 + sum_list (UniqMatch t2)\<rparr>
               in if SumUniqMatch t3 < minUReads then None
                  else Some (t3\<lparr>MeanAbundance := MeanAbundance t3 / of_nat (length (Match t3))\<rparr>)))"

definition select_targets :: "int \<Rightarrow> int \<Rightarrow> rat \<Rightarrow> profile \<Rightarrow> Target list" where
  "select_targets minReads minUReads minFragsProp p =
     List.map_filter (\<lambda>(h, t). score_target minReads minUReads minFragsProp t) p"

text \<open>\<open>Targets.Less\<close>, as a relation on the targets at the two indices.\<close>

definition Less :: "Target \<Rightarrow> Target \<Rightarrow> bool" where
  "Less ti tj \<longleftrightarrow> FragsProp ti > FragsProp tj \<and> MeanAbundance ti > MeanAbundance tj"

text \<open>
  The command after its flags are read. \<open>sorts.Quicksort\<close> lies outside the repository
  and is the parameter \<open>Quicksort\<close>: it is given the order and the slice. The result is
  the list of the targets written, one line each, in this order.
\<close>

record profile_options =
  maxFPR :: rat
  minQcov :: rat
  minReads :: int
  minUReads :: int
  minFragsProp :: rat

definition profileCmd ::
  "parseFloat \<Rightarrow> (string \<Rightarrow> 64 word) \<Rightarrow> ((Target \<Rightarrow> Target \<Rightarrow> bool) \<Rightarrow> Target list \<Rightarrow> Target list) \<Rightarrow>
   profile_options \<Rightarrow> string list list list \<Rightarrow> error + Target list" where
  "profileCmd ParseFloat hashString Quicksort opt files =
     bindE (profile_files ParseFloat hashString (maxFPR opt) (minQcov opt) [] files) (\<lambda>p.
       Inr (Quicksort Less (select_targets (minReads opt) (minUReads opt) (minFragsProp opt) p)))"

text \<open>
  A line of the output for a target: name, \<open>%.2f\<close> of \<open>FragsProp\<close>, \<open>%0.f\<close> of
  \<open>MeanAbundance\<close>, \<open>%d\<close> of \<open>SumUniqMatch\<close>, and the mapped name when names are mapped.
  \<open>fmt.Sprintf\<close> of a float is the parameter \<open>sprintf\<close>.
\<close>

definition profile_line :: "(string \<Rightarrow> rat \<Rightarrow> string) \<Rightarrow> (string \<rightharpoonup> string) option \<Rightarrow> Target \<Rightarrow> string list" where
  "profile_line sprintf namesMap t =
     [tName t, sprintf ''%.2f'' (FragsProp t), sprintf ''%0.f'' (MeanAbundance t), Itoa (SumUniqMatch t)] @
     (case namesMap of
        None \<Rightarrow> []
      | Some nm \<Rightarrow> [case nm (tName t) of None \<Rightarrow> '''' | Some name2 \<Rightarrow> name2])"








text \<open>
  The map \<open>matches\<close> when a query ends: the hits of the query, added one by one to the
  empty map.
\<close>

definition query_matches :: "(string \<Rightarrow> 64 word) \<Rightarrow> MatchResult list \<Rightarrow> matches" where
  "query_matches hashString hits = foldl (add_match hashString) [] hits"



subsection \<open>Concrete profile inputs\<close>

text \<open>
  Stand-ins for the three functions declared outside the repository: \<open>ex_ParseFloat\<close>
  reads plain decimals (digits, optionally a point and digits), \<open>ex_hashString\<close>
  separates the names used below, and \<open>ex_Quicksort\<close> is an insertion sort that moves
  an element towards the front while the order says so.
\<close>

definition ex_ParseFloat :: parseFloat where
  "ex_ParseFloat s =
     (let a = takeWhile (\<lambda>c. c \<noteq> CHR ''.'') s;
          b = drop 1 (dropWhile (\<lambda>c. c \<noteq> CHR ''.'') s)
      in if a \<noteq> [] \<and> list_all is_digit a \<and> list_all is_digit b
         then Some (of_nat (digits_val a) + of_nat (digits_val b) / 10 ^ length b)
         else None)"

definition ex_hashString :: "string \<Rightarrow> 64 word" where
  "ex_hashString s = foldl (\<lambda>h c. 31 * h + of_char c) 7 s"

fun ex_insert :: "('a \<Rightarrow> 'a \<Rightarrow> bool) \<Rightarrow> 'a \<Rightarrow> 'a list \<Rightarrow> 'a list" where
  "ex_insert lt x [] = [x]"
| "ex_insert lt x (y # ys) = (if lt x y then y # ex_insert lt x ys else x # y # ys)"

definition ex_Quicksort :: "('a \<Rightarrow> 'a \<Rightarrow> bool) \<Rightarrow> 'a list \<Rightarrow> 'a list" where
  "ex_Quicksort lt xs = foldl (\<lambda>acc x. rev (ex_insert lt x (rev acc))) [] xs"

text \<open>
  A line of the input with the fields the profiler reads: query, qLen, qKmers, FPR,
  hits, target, fragIdx, number of fragments, mKmers, qCov, and the rest of the line.
\<close>

definition ex_hit :: "string \<Rightarrow> string \<Rightarrow> string \<Rightarrow> string \<Rightarrow> string \<Rightarrow> string list" where
  "ex_hit query target fragIdx frags qCov =
     [query, ''150'', ''100'', ''0'', ''1'', target, fragIdx, frags, ''90'', qCov, ''rest'']"

definition ex_header :: "string list" where
  "ex_header = [''#query'', ''qLen'', ''qKmers'', ''FPR'', ''hits'', ''target'', ''fragIdx'',
     ''frags'', ''mKmers'', ''qCov'', ''rest'']"


definition ex_profile_options :: profile_options where
  "ex_profile_options = \<lparr>maxFPR = 1 / 1000, minQcov = 7 / 10, minReads = 1, minUReads = 1,
     minFragsProp = 1 / 2\<rparr>"

text \<open>A file whose third line has a fragment index that is not a number.\<close>

definition ex_bad_line :: "string list" where
  "ex_bad_line = ex_hit ''read1'' ''A'' ''x'' ''1'' ''0.9''"

definition ex_bad_file :: "string list list" where
  "ex_bad_file =
     ex_header # [ex_hit ''read1'' ''A'' ''0'' ''1'' ''0.9''] @ ex_bad_line #
       [ex_hit ''read2'' ''A'' ''0'' ''1'' ''0.9'']"

definition ex_scan_state :: scan_state where
  "ex_scan_state =
     \<lparr>prof = [],
      pending_matches = [(282, [\<lparr>Query = ''read1'', QLen = 150, QKmers = 100, FPR = 0, Hits = 1,
          Target = ''A'', FragIdx = 0, IdxNum = 1, MKmers = 90, QCov = 9 / 10\<rparr>])],
      prevQuery = ''read1''\<rparr>"


definition ex_two_targets :: "string list list" where
  "ex_two_targets =
     [ex_header,
      ex_hit ''read1'' ''A'' ''0'' ''2'' ''0.9'', ex_hit ''read2'' ''A'' ''0'' ''2'' ''0.9'',
      ex_hit ''read3'' ''A'' ''0'' ''2'' ''0.9'', ex_hit ''read4'' ''A'' ''0'' ''2'' ''0.9'',
      ex_hit ''read5'' ''A'' ''0'' ''2'' ''0.9'', ex_hit ''read6'' ''A'' ''0'' ''2'' ''0.9'',
      ex_hit ''read7'' ''B'' ''0'' ''1'' ''0.9'', ex_hit ''read8'' ''B'' ''0'' ''1'' ''0.9'']"

definition ex_target_A :: Target where
  "ex_target_A = \<lparr>tName = ''A'', Match = [6, 0], UniqMatch = [6, 0], FragLens = [900, 0],
     SumUniqMatch = 6, FragsProp = 1 / 2, MeanAbundance = 3\<rparr>"

definition ex_target_B :: Target where
  "ex_target_B = \<lparr>tName = ''B'', Match = [2], UniqMatch = [2], FragLens = [300],
     SumUniqMatch = 2, FragsProp = 1, MeanAbundance = 2\<rparr>"



definition ex_multi_file :: "string list list" where
  "ex_multi_file =
     [ex_header,
      ex_hit ''read1'' ''A'' ''0'' ''2'' ''0.9'', ex_hit ''read1'' ''A'' ''1'' ''2'' ''0.9'',
      ex_hit ''read1'' ''B'' ''0'' ''1'' ''0.9'']"

definition ex_multi_profile :: profile where
  "ex_multi_profile =
     [(282, \<lparr>tName = ''A'', Match = [1 / 2, 1 / 2], UniqMatch = [0, 0], FragLens = [150, 150],
             SumUniqMatch = 0, FragsProp = 0, MeanAbundance = 0\<rparr>),
      (283, \<lparr>tName = ''B'', Match = [1], UniqMatch = [1], FragLens = [150],
             SumUniqMatch = 0, FragsProp = 0, MeanAbundance = 0\<rparr>)]"



section \<open>Proofs: shared lemmas\<close>

lemma bindE_Inr_iff: "bindE r f = Inr y \<longleftrightarrow> (\<exists>v. r = Inr v \<and> f v = Inr y)"
  by (cases r) (auto simp: bindE_def)

lemma bindE_Inl_iff: "bindE r f = Inl e \<longleftrightarrow> (r = Inl e \<or> (\<exists>v. r = Inr v \<and> f v = Inl e))"
  by (cases r) (auto simp: bindE_def)

lemma bindE_Inr [simp]: "bindE (Inr v) f = f v"
  by (simp add: bindE_def)

lemma bindE_Inl [simp]: "bindE (Inl e) f = Inl e"
  by (simp add: bindE_def)

lemma checkError_None [simp]: "checkError None = Inr ()"
  by (simp add: checkError_def)

lemma checkError_Some [simp]: "checkError (Some e) = Inl e"
  by (simp add: checkError_def)

section \<open>Proofs: kmcp search\<close>

























section \<open>Proofs: kmcp index, batching\<close>




























lemma group_of_wf: "gKmers (group_of infos) \<noteq> 0 \<longrightarrow> Infos (group_of infos) \<noteq> []"
  by (auto simp: group_of_def)




section \<open>Proofs: kmcp index, filling\<close>

lemma filled_refl: "(\<And>r j. \<not> S r j) \<Longrightarrow> filled sg sg S"
  by (simp add: filled_def)

lemma filled_trans:
  "filled sg sg1 S1 \<Longrightarrow> filled sg1 sg2 S2 \<Longrightarrow> (\<And>r j. S r j \<longleftrightarrow> S1 r j \<or> S2 r j) \<Longrightarrow> filled sg sg2 S"
  by (auto simp: filled_def)

lemma bit_or_column:
  "k \<le> 7 \<Longrightarrow> bit (w OR push_bit (7 - k) (1 :: 8 word)) j \<longleftrightarrow> bit w j \<or> j = 7 - k"
  by (auto simp: bit_simps)

lemma or_bit_filled:
  assumes "k \<le> 7" "0 \<le> loc" "loc < int (length sg)"
  shows "\<exists>sg'. or_bit sg k loc = Inr sg' \<and> filled sg sg' (\<lambda>r j. r = nat loc \<and> j = 7 - k)"
proof -
  let ?sg = "sg[nat loc := sg ! nat loc OR push_bit (7 - k) 1]"
  have "or_bit sg k loc = Inr ?sg" using assms by (simp add: or_bit_def)
  moreover have "filled sg ?sg (\<lambda>r j. r = nat loc \<and> j = 7 - k)"
    using assms by (auto simp: filled_def nth_list_update bit_simps)
  ultimately show ?thesis by blast
qed

lemma and_decr_less:
  fixes m y :: "64 word"
  assumes "m \<noteq> 0"
  shows "unat (y AND (m - 1)) < unat m"
proof -
  have "y AND (m - 1) \<le> m - 1" by (rule word_and_le1)
  then have "unat (y AND (m - 1)) \<le> unat (m - 1)" by (simp add: word_le_nat_alt)
  also have "unat (m - 1) = unat m - 1" using assms by (rule unat_minus_one)
  also have "\<dots> < unat m" using assms by (simp add: unat_gt_0)
  finally show ?thesis .
qed

lemma read_codes_single:
  fixes m :: "64 word" and p :: "64 word \<Rightarrow> 64 word"
  assumes k: "k \<le> 7" and m: "m \<noteq> 0" and len: "length sg = unat m"
  shows "\<exists>sg'. read_codes (\<lambda>code. [uint (p code AND (m - 1))]) sg k codes = Inr sg' \<and>
           filled sg sg' (\<lambda>r j. j = 7 - k \<and> (\<exists>x\<in>set codes. unat (p x AND (m - 1)) = r))"
  using len
proof (induction codes arbitrary: sg)
  case Nil
  then show ?case by (simp add: filled_def)
next
  case (Cons x codes)
  let ?loc = "uint (p x AND (m - 1))"
  have l0: "0 \<le> ?loc" by simp
  have "?loc = int (unat (p x AND (m - 1)))" by (rule uint_nat)
  also have "\<dots> < int (unat m)"
    using and_decr_less [OF m, of "p x"] by (simp only: of_nat_less_iff)
  finally have l1: "?loc < int (length sg)" using Cons.prems by simp
  from or_bit_filled [OF k l0 l1] obtain sg1 where
    s1: "or_bit sg k ?loc = Inr sg1" "filled sg sg1 (\<lambda>r j. r = nat ?loc \<and> j = 7 - k)"
    by blast
  from s1(2) Cons.prems have "length sg1 = unat m" by (simp add: filled_def)
  from Cons.IH [OF this] obtain sg2 where
    s2: "read_codes (\<lambda>code. [uint (p code AND (m - 1))]) sg1 k codes = Inr sg2"
        "filled sg1 sg2 (\<lambda>r j. j = 7 - k \<and> (\<exists>x\<in>set codes. unat (p x AND (m - 1)) = r))"
    by blast
  have "read_codes (\<lambda>code. [uint (p code AND (m - 1))]) sg k (x # codes) = Inr sg2"
    using s1(1) s2(1) by (simp add: bindE_def)
  moreover have "filled sg sg2 (\<lambda>r j. j = 7 - k \<and> (\<exists>y\<in>set (x # codes). unat (p y AND (m - 1)) = r))"
    by (rule filled_trans [OF s1(2) s2(2)]) auto
  ultimately show ?case by blast
qed

lemma fill_file_single:
  assumes k: "k \<le> 7" and m: "numSigs \<noteq> 0" and len: "length sg = unat numSigs"
    and fs: "fs (Path info) = Inr reader" and ok: "ReadErr reader = None"
  shows "\<exists>sg'. fill_file hash64 hlf fs 1 (numSigs - 1) sg k info = Inr sg' \<and>
           filled sg sg' (\<lambda>r j. j = 7 - k \<and>
             (\<exists>code\<in>set (Codes reader). unat (single_position hash64 numSigs reader code) = r))"
proof (cases "IsHashed reader")
  case True
  from read_codes_single [OF k m len, of "\<lambda>x. x" "Codes reader"] obtain sg' where
    "read_codes (\<lambda>code. [uint (code AND (numSigs - 1))]) sg k (Codes reader) = Inr sg'"
    "filled sg sg' (\<lambda>r j. j = 7 - k \<and> (\<exists>x\<in>set (Codes reader). unat (x AND (numSigs - 1)) = r))"
    by blast
  then show ?thesis
    using True fs ok by (simp add: fill_file_def single_position_def bindE_def)
next
  case False
  from read_codes_single [OF k m len, of hash64 "Codes reader"] obtain sg' where
    "read_codes (\<lambda>code. [uint (hash64 code AND (numSigs - 1))]) sg k (Codes reader) = Inr sg'"
    "filled sg sg' (\<lambda>r j. j = 7 - k \<and> (\<exists>x\<in>set (Codes reader). unat (hash64 x AND (numSigs - 1)) = r))"
    by blast
  then show ?thesis
    using False fs ok by (simp add: fill_file_def single_position_def bindE_def)
qed

lemma fill_group_single:
  assumes k: "k \<le> 7" and m: "numSigs \<noteq> 0"
  shows "length sg = unat numSigs \<Longrightarrow> \<forall>info\<in>set infos. readable fs info \<Longrightarrow>
         \<exists>sg'. fill_group hash64 hlf fs 1 (numSigs - 1) sg k infos = Inr sg' \<and>
           filled sg sg' (\<lambda>r j. j = 7 - k \<and> group_hits hash64 fs numSigs infos r)"
proof (induction infos arbitrary: sg)
  case Nil
  then show ?case by (simp add: filled_def group_hits_def)
next
  case (Cons info infos)
  from Cons.prems(2) obtain reader where
    rd: "fs (Path info) = Inr reader" "ReadErr reader = None"
    by (auto simp: readable_def)
  from fill_file_single [where fs = fs and info = info and reader = reader and ?hash64.0 = hash64
      and hlf = hlf, OF k m Cons.prems(1) rd] obtain sg1 where
    s1: "fill_file hash64 hlf fs 1 (numSigs - 1) sg k info = Inr sg1"
        "filled sg sg1 (\<lambda>r j. j = 7 - k \<and>
             (\<exists>code\<in>set (Codes reader). unat (single_position hash64 numSigs reader code) = r))"
    by blast
  from s1(2) Cons.prems(1) have "length sg1 = unat numSigs" by (simp add: filled_def)
  from Cons.IH [OF this] Cons.prems(2) obtain sg2 where
    s2: "fill_group hash64 hlf fs 1 (numSigs - 1) sg1 k infos = Inr sg2"
        "filled sg1 sg2 (\<lambda>r j. j = 7 - k \<and> group_hits hash64 fs numSigs infos r)"
    by auto
  have "fill_group hash64 hlf fs 1 (numSigs - 1) sg k (info # infos) = Inr sg2"
    using s1(1) s2(1) by (simp add: bindE_def)
  moreover have "filled sg sg2 (\<lambda>r j. j = 7 - k \<and> group_hits hash64 fs numSigs (info # infos) r)"
    by (rule filled_trans [OF s1(2) s2(2)]) (auto simp: group_hits_def rd(1))
  ultimately show ?case by blast
qed

lemma fill_groups_single:
  assumes m: "numSigs \<noteq> 0"
  shows "k + length cols \<le> 8 \<Longrightarrow> length sg = unat numSigs \<Longrightarrow>
         \<forall>infos\<in>set cols. \<forall>info\<in>set infos. readable fs info \<Longrightarrow>
         \<exists>sg'. fill_groups hash64 hlf fs 1 (numSigs - 1) sg k cols = Inr sg' \<and>
           filled sg sg' (\<lambda>r j. \<exists>c<length cols. j = 7 - (k + c) \<and>
                                   group_hits hash64 fs numSigs (cols ! c) r)"
proof (induction cols arbitrary: sg k)
  case Nil
  then show ?case by (simp add: filled_def)
next
  case (Cons infos cols)
  from Cons.prems(1) have k: "k \<le> 7" by simp
  from Cons.prems(3) have rd: "\<forall>info\<in>set infos. readable fs info" by simp
  from fill_group_single [OF k m Cons.prems(2) rd, of hash64 hlf] obtain sg1 where
    s1: "fill_group hash64 hlf fs 1 (numSigs - 1) sg k infos = Inr sg1"
        "filled sg sg1 (\<lambda>r j. j = 7 - k \<and> group_hits hash64 fs numSigs infos r)"
    by blast
  from s1(2) Cons.prems(2) have l1: "length sg1 = unat numSigs" by (simp add: filled_def)
  from Cons.prems(1) have k1: "Suc k + length cols \<le> 8" by simp
  from Cons.IH [OF k1 l1] Cons.prems(3) obtain sg2 where
    s2: "fill_groups hash64 hlf fs 1 (numSigs - 1) sg1 (Suc k) cols = Inr sg2"
        "filled sg1 sg2 (\<lambda>r j. \<exists>c<length cols. j = 7 - (Suc k + c) \<and>
                                   group_hits hash64 fs numSigs (cols ! c) r)"
    by auto
  have "fill_groups hash64 hlf fs 1 (numSigs - 1) sg k (infos # cols) = Inr sg2"
    using s1(1) s2(1) by (simp add: bindE_def)
  moreover have "filled sg sg2 (\<lambda>r j. \<exists>c<length (infos # cols). j = 7 - (k + c) \<and>
                                   group_hits hash64 fs numSigs ((infos # cols) ! c) r)"
  proof (rule filled_trans [OF s1(2) s2(2)])
    fix r j
    show "(\<exists>c<length (infos # cols). j = 7 - (k + c) \<and>
              group_hits hash64 fs numSigs ((infos # cols) ! c) r) \<longleftrightarrow>
          (j = 7 - k \<and> group_hits hash64 fs numSigs infos r) \<or>
          (\<exists>c<length cols. j = 7 - (Suc k + c) \<and> group_hits hash64 fs numSigs (cols ! c) r)"
      (is "?L \<longleftrightarrow> ?A \<or> ?B")
    proof
      assume ?L
      then obtain c where c: "c < length (infos # cols)" "j = 7 - (k + c)"
        "group_hits hash64 fs numSigs ((infos # cols) ! c) r" by blast
      show "?A \<or> ?B"
      proof (cases c)
        case 0
        with c show ?thesis by simp
      next
        case (Suc d)
        with c have "d < length cols \<and> j = 7 - (Suc k + d) \<and>
          group_hits hash64 fs numSigs (cols ! d) r" by simp
        then show ?thesis by blast
      qed
    next
      assume "?A \<or> ?B"
      then show ?L
      proof
        assume ?A
        then have "0 < length (infos # cols) \<and> j = 7 - (k + 0) \<and>
          group_hits hash64 fs numSigs ((infos # cols) ! 0) r" by simp
        then show ?L by blast
      next
        assume ?B
        then obtain d where "d < length cols" "j = 7 - (Suc k + d)"
          "group_hits hash64 fs numSigs (cols ! d) r" by blast
        then have "Suc d < length (infos # cols) \<and> j = 7 - (k + Suc d) \<and>
          group_hits hash64 fs numSigs ((infos # cols) ! Suc d) r" by simp
        then show ?L by blast
      qed
    qed
  qed
  ultimately show ?case by blast
qed


lemma group_hits_cong: "set infos = set infos' \<Longrightarrow>
  group_hits hash64 fs numSigs infos r = group_hits hash64 fs numSigs infos' r"
  by (simp add: group_hits_def)

lemma fill_batch8_single:
  assumes m: "numSigs \<noteq> 0" and perm: "\<forall>infos. set (byName infos) = set infos"
    and len: "length batch8 \<le> 8"
    and rd: "\<forall>infos\<in>set batch8. \<forall>info\<in>set infos. readable fs info"
  shows "\<exists>b8. fill_batch8 hash64 hlf byName fs 1 numSigs batch8 = Inr b8 \<and>
           length (sigs b8) = unat numSigs \<and>
           (\<forall>r<unat numSigs. \<forall>j. bit (sigs b8 ! r) j \<longleftrightarrow>
              (\<exists>c<length batch8. j = 7 - c \<and> group_hits hash64 fs numSigs (batch8 ! c) r))"
proof -
  let ?sorted = "map byName batch8"
  let ?zero = "replicate (unat numSigs) (0 :: 8 word)"
  have l: "0 + length ?sorted \<le> 8" using len by simp
  have z: "length ?zero = unat numSigs" by simp
  have rd': "\<forall>infos\<in>set ?sorted. \<forall>info\<in>set infos. readable fs info"
    using rd perm by auto
  from fill_groups_single [OF m l z rd', of hash64 hlf] obtain sg' where
    s: "fill_groups hash64 hlf fs 1 (numSigs - 1) ?zero 0 ?sorted = Inr sg'"
       "filled ?zero sg' (\<lambda>r j. \<exists>c<length ?sorted. j = 7 - (0 + c) \<and>
                                   group_hits hash64 fs numSigs (?sorted ! c) r)"
    by blast
  let ?b8 = "\<lparr>sigs = sg', names = map (map Name) ?sorted, indices = map (map Index) ?sorted,
              sizes = map (\<lambda>infos. foldl (\<lambda>size info. size + Kmers info) 0 infos) ?sorted\<rparr>"
  have run: "fill_batch8 hash64 hlf byName fs 1 numSigs batch8 = Inr ?b8"
    using s(1) by (simp add: fill_batch8_def Let_def)
  have l': "length sg' = unat numSigs" using s(2) by (simp add: filled_def)
  have bits: "bit (sg' ! r) j \<longleftrightarrow>
      (\<exists>c<length batch8. j = 7 - c \<and> group_hits hash64 fs numSigs (batch8 ! c) r)"
    if r: "r < unat numSigs" for r j
  proof -
    from s(2) r have "bit (sg' ! r) j \<longleftrightarrow>
        (\<exists>c<length ?sorted. j = 7 - (0 + c) \<and> group_hits hash64 fs numSigs (?sorted ! c) r)"
      by (simp add: filled_def)
    also have "\<dots> \<longleftrightarrow> (\<exists>c<length batch8. j = 7 - c \<and>
        group_hits hash64 fs numSigs (byName (batch8 ! c)) r)"
      by auto
    also have "\<dots> \<longleftrightarrow> (\<exists>c<length batch8. j = 7 - c \<and>
        group_hits hash64 fs numSigs (batch8 ! c) r)"
      using perm group_hits_cong [of "byName (batch8 ! _)" "batch8 ! _"] by (simp add: group_hits_def)
    finally show ?thesis .
  qed
  have "length (sigs ?b8) = unat numSigs \<and>
        (\<forall>r<unat numSigs. \<forall>j. bit (sigs ?b8 ! r) j \<longleftrightarrow>
              (\<exists>c<length batch8. j = 7 - c \<and> group_hits hash64 fs numSigs (batch8 ! c) r))"
    using l' bits by simp
  with run show ?thesis by blast
qed

lemma fill_planes_single:
  assumes m: "numSigs \<noteq> 0" and perm: "\<forall>infos. set (byName infos) = set infos"
  shows "\<forall>batch8\<in>set chunks. length batch8 \<le> 8 \<and>
           (\<forall>infos\<in>set batch8. \<forall>info\<in>set infos. readable fs info) \<Longrightarrow>
         \<exists>b8s. fill_planes hash64 hlf byName fs 1 numSigs chunks = Inr b8s \<and>
           length b8s = length chunks \<and>
           (\<forall>p<length chunks. length (sigs (b8s ! p)) = unat numSigs \<and>
              (\<forall>r<unat numSigs. \<forall>j. bit (sigs (b8s ! p) ! r) j \<longleftrightarrow>
                 (\<exists>c<length (chunks ! p). j = 7 - c \<and>
                    group_hits hash64 fs numSigs (chunks ! p ! c) r)))"
proof (induction chunks)
  case Nil
  then show ?case by simp
next
  case (Cons batch8 chunks)
  from Cons.prems have len: "length batch8 \<le> 8"
    and rd: "\<forall>infos\<in>set batch8. \<forall>info\<in>set infos. readable fs info" by simp_all
  from fill_batch8_single [OF m perm len rd, of hash64 hlf] obtain b8 where
    b8: "fill_batch8 hash64 hlf byName fs 1 numSigs batch8 = Inr b8"
        "length (sigs b8) = unat numSigs"
        "\<forall>r<unat numSigs. \<forall>j. bit (sigs b8 ! r) j \<longleftrightarrow>
              (\<exists>c<length batch8. j = 7 - c \<and> group_hits hash64 fs numSigs (batch8 ! c) r)"
    by blast
  from Cons.IH Cons.prems obtain b8s where
    b8s: "fill_planes hash64 hlf byName fs 1 numSigs chunks = Inr b8s"
         "length b8s = length chunks"
         "\<forall>p<length chunks. length (sigs (b8s ! p)) = unat numSigs \<and>
              (\<forall>r<unat numSigs. \<forall>j. bit (sigs (b8s ! p) ! r) j \<longleftrightarrow>
                 (\<exists>c<length (chunks ! p). j = 7 - c \<and>
                    group_hits hash64 fs numSigs (chunks ! p ! c) r))"
    by auto
  have run: "fill_planes hash64 hlf byName fs 1 numSigs (batch8 # chunks) = Inr (b8 # b8s)"
    using b8(1) b8s(1) by (simp add: bindE_def)
  have "\<forall>p<length (batch8 # chunks). length (sigs ((b8 # b8s) ! p)) = unat numSigs \<and>
              (\<forall>r<unat numSigs. \<forall>j. bit (sigs ((b8 # b8s) ! p) ! r) j \<longleftrightarrow>
                 (\<exists>c<length ((batch8 # chunks) ! p). j = 7 - c \<and>
                    group_hits hash64 fs numSigs ((batch8 # chunks) ! p ! c) r))"
  proof (intro allI impI)
    fix p assume "p < length (batch8 # chunks)"
    then show "length (sigs ((b8 # b8s) ! p)) = unat numSigs \<and>
              (\<forall>r<unat numSigs. \<forall>j. bit (sigs ((b8 # b8s) ! p) ! r) j \<longleftrightarrow>
                 (\<exists>c<length ((batch8 # chunks) ! p). j = 7 - c \<and>
                    group_hits hash64 fs numSigs ((batch8 # chunks) ! p ! c) r))"
      using b8(2,3) b8s(3) by (cases p) simp_all
  qed
  with run b8s(2) show ?case by simp
qed

lemma batch_planes_length: "length (batch_planes cols) = (length cols + 7) div 8"
  by (simp add: batch_planes_def)

lemma batch_planes_nth:
  assumes "p < (length cols + 7) div 8"
  shows "batch_planes cols ! p = take 8 (drop (8 * p) cols)"
  using assms by (simp add: batch_planes_def)

lemma batch_planes_set:
  "batch8 \<in> set (batch_planes cols) \<Longrightarrow> length batch8 \<le> 8 \<and> set batch8 \<subseteq> set cols"
  by (auto simp: batch_planes_def dest: in_set_takeD in_set_dropD)

lemma plane_column_iff:
  assumes p: "p < (length cols + 7) div 8"
  shows "(\<exists>k<length (take 8 (drop (8 * p) cols)). j = 7 - k \<and> H (take 8 (drop (8 * p) cols) ! k)) \<longleftrightarrow>
         (\<exists>c<length cols. c div 8 = p \<and> j = 7 - c mod 8 \<and> H (cols ! c))"
  (is "?L \<longleftrightarrow> ?R")
proof
  assume ?L
  then obtain k where k: "k < length (take 8 (drop (8 * p) cols))" "j = 7 - k"
    "H (take 8 (drop (8 * p) cols) ! k)" by blast
  from k(1) have k8: "k < 8" and kl: "8 * p + k < length cols" by auto
  have "take 8 (drop (8 * p) cols) ! k = cols ! (8 * p + k)" using k8 kl by simp
  with k(3) have "H (cols ! (8 * p + k))" by simp
  moreover have "(8 * p + k) div 8 = p" "(8 * p + k) mod 8 = k" using k8 by simp_all
  ultimately have "8 * p + k < length cols \<and> (8 * p + k) div 8 = p \<and>
    j = 7 - (8 * p + k) mod 8 \<and> H (cols ! (8 * p + k))" using kl k(2) by simp
  then show ?R by blast
next
  assume ?R
  then obtain c where c: "c < length cols" "c div 8 = p" "j = 7 - c mod 8" "H (cols ! c)" by blast
  let ?k = "c mod 8"
  have e: "8 * p + ?k = c" using c(2) by auto
  have k8: "?k < 8" by simp
  have kl: "?k < length (take 8 (drop (8 * p) cols))" using c(1) e by simp
  have "take 8 (drop (8 * p) cols) ! ?k = cols ! (8 * p + ?k)" using k8 c(1) e by simp
  with c(4) e have "H (take 8 (drop (8 * p) cols) ! ?k)" by simp
  with kl c(3) show ?L by blast
qed

lemma single_position_mod:
  assumes "numSigs = 2 ^ n" "n < 64"
  shows "single_position hash64 numSigs reader code =
         (if IsHashed reader then code else hash64 code) mod numSigs"
proof -
  have pos: "(0 :: 64 word) < 2 ^ n" using assms(2) by (simp add: word_2p_lem word_size)
  have "\<And>x :: 64 word. x AND (2 ^ n - 1) = x mod 2 ^ n"
    using pos by (simp add: word_mod_2p_is_mask mask_eq_decr_exp)
  then show ?thesis using assms(1) by (simp add: single_position_def)
qed


text \<open>
  C2. With a single hash, a signature count \<open>numSigs \<noteq> 0\<close> and files that can all be
  read, the block is built, with one plane of \<open>numSigs\<close> bytes for every eight columns, and
  bit \<open>j\<close> of byte \<open>r\<close> of plane \<open>p\<close> is set exactly when \<open>j = 7 - c mod 8\<close> for a column
  \<open>c\<close> with \<open>c div 8 = p\<close> one of whose files holds a code \<open>x\<close> with position \<open>r\<close>: the
  position is \<open>x AND (numSigs - 1)\<close> for a hashed file and \<open>hash64 x AND (numSigs - 1)\<close>
  otherwise, which is the remainder modulo \<open>numSigs\<close> when \<open>numSigs\<close> is a power of two.
\<close>

theorem index_fill_single_hash:
  assumes h: "numHashes = 1" and m: "numSigs \<noteq> 0"
    and perm: "\<forall>infos. set (byName infos) = set infos"
    and rd: "\<forall>infos\<in>set cols. \<forall>info\<in>set infos. readable fs info"
  shows "\<exists>blk. build_block hash64 hlf byName fs numHashes numSigs cols = Inr blk \<and>
     length (sigsBlock blk) = (length cols + 7) div 8 \<and>
     (\<forall>p<length (sigsBlock blk). length (sigsBlock blk ! p) = unat numSigs \<and>
        (\<forall>r<unat numSigs. \<forall>j. bit (sigsBlock blk ! p ! r) j \<longleftrightarrow>
           (\<exists>c<length cols. c div 8 = p \<and> j = 7 - c mod 8 \<and>
              group_hits hash64 fs numSigs (cols ! c) r))) \<and>
     (\<forall>c<length cols. \<forall>r<unat numSigs.
        bit (sigsBlock blk ! (c div 8) ! r) (7 - c mod 8) \<longleftrightarrow>
        group_hits hash64 fs numSigs (cols ! c) r) \<and>
     (\<forall>n reader code. numSigs = 2 ^ n \<and> n < 64 \<longrightarrow>
        single_position hash64 numSigs reader code =
          (if IsHashed reader then code else hash64 code) mod numSigs)"
proof -
  let ?chunks = "batch_planes cols"
  let ?n = "(length cols + 7) div 8"
  have ch: "\<forall>batch8\<in>set ?chunks. length batch8 \<le> 8 \<and>
           (\<forall>infos\<in>set batch8. \<forall>info\<in>set infos. readable fs info)"
  proof
    fix batch8 assume "batch8 \<in> set ?chunks"
    then have "length batch8 \<le> 8" "set batch8 \<subseteq> set cols"
      using batch_planes_set by blast+
    with rd show "length batch8 \<le> 8 \<and>
           (\<forall>infos\<in>set batch8. \<forall>info\<in>set infos. readable fs info)" by blast
  qed
  from fill_planes_single [OF m perm ch, of hash64 hlf] obtain b8s where
    b: "fill_planes hash64 hlf byName fs 1 numSigs ?chunks = Inr b8s"
       "length b8s = length ?chunks"
       "\<forall>p<length ?chunks. length (sigs (b8s ! p)) = unat numSigs \<and>
              (\<forall>r<unat numSigs. \<forall>j. bit (sigs (b8s ! p) ! r) j \<longleftrightarrow>
                 (\<exists>c<length (?chunks ! p). j = 7 - c \<and>
                    group_hits hash64 fs numSigs (?chunks ! p ! c) r))"
    by blast
  define blk where "blk = \<lparr>sigsBlock = map sigs b8s, namesBlock = concat (map names b8s),
      indicesBlock = concat (map indices b8s), sizesBlock = concat (map sizes b8s)\<rparr>"
  have sb: "sigsBlock blk = map sigs b8s" by (simp add: blk_def)
  have run: "build_block hash64 hlf byName fs numHashes numSigs cols = Inr blk"
    using b(1) h by (simp add: build_block_def blk_def)
  have len: "length (sigsBlock blk) = ?n"
    using b(2) by (simp add: sb batch_planes_length)
  have planes: "length (sigsBlock blk ! p) = unat numSigs \<and>
        (\<forall>r<unat numSigs. \<forall>j. bit (sigsBlock blk ! p ! r) j \<longleftrightarrow>
           (\<exists>c<length cols. c div 8 = p \<and> j = 7 - c mod 8 \<and>
              group_hits hash64 fs numSigs (cols ! c) r))"
    if p: "p < ?n" for p
  proof -
    from p have pc: "p < length ?chunks" by (simp add: batch_planes_length)
    with b(2) have nth: "sigsBlock blk ! p = sigs (b8s ! p)" by (simp add: sb)
    from b(3) pc have
      l: "length (sigs (b8s ! p)) = unat numSigs" and
      bits: "\<forall>r<unat numSigs. \<forall>j. bit (sigs (b8s ! p) ! r) j \<longleftrightarrow>
                 (\<exists>c<length (?chunks ! p). j = 7 - c \<and>
                    group_hits hash64 fs numSigs (?chunks ! p ! c) r)"
      by blast+
    have "bit (sigs (b8s ! p) ! r) j \<longleftrightarrow>
           (\<exists>c<length cols. c div 8 = p \<and> j = 7 - c mod 8 \<and>
              group_hits hash64 fs numSigs (cols ! c) r)"
      if r: "r < unat numSigs" for r j
    proof -
      from bits r have "bit (sigs (b8s ! p) ! r) j \<longleftrightarrow>
          (\<exists>c<length (?chunks ! p). j = 7 - c \<and> group_hits hash64 fs numSigs (?chunks ! p ! c) r)"
        by blast
      also have "\<dots> \<longleftrightarrow> (\<exists>k<length (take 8 (drop (8 * p) cols)). j = 7 - k \<and>
          group_hits hash64 fs numSigs (take 8 (drop (8 * p) cols) ! k) r)"
        by (simp only: batch_planes_nth [OF p])
      also have "\<dots> \<longleftrightarrow> (\<exists>c<length cols. c div 8 = p \<and> j = 7 - c mod 8 \<and>
              group_hits hash64 fs numSigs (cols ! c) r)"
        by (rule plane_column_iff [OF p, where H = "\<lambda>infos. group_hits hash64 fs numSigs infos r"])
      finally show ?thesis .
    qed
    with l show ?thesis by (simp only: nth) blast
  qed
  have cols: "bit (sigsBlock blk ! (c div 8) ! r) (7 - c mod 8) \<longleftrightarrow>
        group_hits hash64 fs numSigs (cols ! c) r"
    if c: "c < length cols" and r: "r < unat numSigs" for c r
  proof -
    from c have p: "c div 8 < ?n" by auto
    from planes [OF p] r have "bit (sigsBlock blk ! (c div 8) ! r) (7 - c mod 8) \<longleftrightarrow>
        (\<exists>c'<length cols. c' div 8 = c div 8 \<and> 7 - c mod 8 = 7 - c' mod 8 \<and>
              group_hits hash64 fs numSigs (cols ! c') r)"
      by blast
    also have "\<dots> \<longleftrightarrow> group_hits hash64 fs numSigs (cols ! c) r"
    proof
      assume "\<exists>c'<length cols. c' div 8 = c div 8 \<and> 7 - c mod 8 = 7 - c' mod 8 \<and>
              group_hits hash64 fs numSigs (cols ! c') r"
      then obtain c' where c': "c' < length cols" "c' div 8 = c div 8"
        "7 - c mod 8 = 7 - c' mod 8" "group_hits hash64 fs numSigs (cols ! c') r" by blast
      have "c mod 8 < 8" "c' mod 8 < 8" by simp_all
      with c'(3) have "c mod 8 = c' mod 8" by linarith
      with c'(2) have "c' = c" by (metis div_mult_mod_eq)
      with c'(4) show "group_hits hash64 fs numSigs (cols ! c) r" by simp
    next
      assume "group_hits hash64 fs numSigs (cols ! c) r"
      with c show "\<exists>c'<length cols. c' div 8 = c div 8 \<and> 7 - c mod 8 = 7 - c' mod 8 \<and>
              group_hits hash64 fs numSigs (cols ! c') r" by blast
    qed
    finally show ?thesis .
  qed
  show ?thesis
  proof (intro exI [of _ blk] conjI)
    show "build_block hash64 hlf byName fs numHashes numSigs cols = Inr blk" by (rule run)
    show "length (sigsBlock blk) = ?n" by (rule len)
    show "\<forall>p<length (sigsBlock blk). length (sigsBlock blk ! p) = unat numSigs \<and>
        (\<forall>r<unat numSigs. \<forall>j. bit (sigsBlock blk ! p ! r) j \<longleftrightarrow>
           (\<exists>c<length cols. c div 8 = p \<and> j = 7 - c mod 8 \<and>
              group_hits hash64 fs numSigs (cols ! c) r))"
    proof (intro allI impI)
      fix p assume "p < length (sigsBlock blk)"
      then have "p < ?n" by (simp only: len)
      then show "length (sigsBlock blk ! p) = unat numSigs \<and>
        (\<forall>r<unat numSigs. \<forall>j. bit (sigsBlock blk ! p ! r) j \<longleftrightarrow>
           (\<exists>c<length cols. c div 8 = p \<and> j = 7 - c mod 8 \<and>
              group_hits hash64 fs numSigs (cols ! c) r))"
        by (rule planes)
    qed
    show "\<forall>c<length cols. \<forall>r<unat numSigs.
        bit (sigsBlock blk ! (c div 8) ! r) (7 - c mod 8) \<longleftrightarrow>
        group_hits hash64 fs numSigs (cols ! c) r"
    proof (intro allI impI)
      fix c r assume "c < length cols" "r < unat numSigs"
      then show "bit (sigsBlock blk ! (c div 8) ! r) (7 - c mod 8) \<longleftrightarrow>
        group_hits hash64 fs numSigs (cols ! c) r" by (rule cols)
    qed
    show "\<forall>n reader code. numSigs = 2 ^ n \<and> n < 64 \<longrightarrow>
        single_position hash64 numSigs reader code =
          (if IsHashed reader then code else hash64 code) mod numSigs"
    proof (intro allI impI)
      fix n reader code assume "numSigs = 2 ^ n \<and> n < 64"
      then have "numSigs = 2 ^ n" "n < 64" by blast+
      then show "single_position hash64 numSigs reader code =
          (if IsHashed reader then code else hash64 code) mod numSigs"
        by (rule single_position_mod)
    qed
  qed
qed

lemma ex_block:
  "build_block ex_hash64 ex_hlf ex_byName ex_fs 1 8 ex_cols =
     Inr \<lparr>sigsBlock = [[0, 0, 0, 128, 0, 128, 64, 0]],
          namesBlock = [[''a.unik''], [''b.unik'']],
          indicesBlock = [[0], [0]],
          sizesBlock = [2, 1]\<rparr>"
  by code_simp

lemma ex_readable: "\<forall>infos\<in>set ex_cols. \<forall>info\<in>set infos. readable ex_fs info"
  by (simp add: ex_cols_def ex_info_def readable_def ex_fs_def)

lemma ex_byName_set: "\<forall>infos. set (ex_byName infos) = set infos"
  by (simp add: ex_byName_def)

theorem index_fill_single_hash_witness:
  "(1 :: int) = 1 \<and> (8 :: 64 word) \<noteq> 0 \<and>
   (\<forall>infos. set (ex_byName infos) = set infos) \<and>
   list_all (list_all (readable ex_fs)) ex_cols \<and>
   (\<exists>blk. build_block ex_hash64 ex_hlf ex_byName ex_fs 1 8 ex_cols = Inr blk \<and>
     length (sigsBlock blk) = (length ex_cols + 7) div 8 \<and>
     (\<forall>p<length (sigsBlock blk). length (sigsBlock blk ! p) = unat (8 :: 64 word) \<and>
        (\<forall>r<unat (8 :: 64 word). \<forall>j. bit (sigsBlock blk ! p ! r) j \<longleftrightarrow>
           (\<exists>c<length ex_cols. c div 8 = p \<and> j = 7 - c mod 8 \<and>
              group_hits ex_hash64 ex_fs 8 (ex_cols ! c) r))) \<and>
     (\<forall>c<length ex_cols. \<forall>r<unat (8 :: 64 word).
        bit (sigsBlock blk ! (c div 8) ! r) (7 - c mod 8) \<longleftrightarrow>
        group_hits ex_hash64 ex_fs 8 (ex_cols ! c) r) \<and>
     (\<forall>n reader code. (8 :: 64 word) = 2 ^ n \<and> n < 64 \<longrightarrow>
        single_position ex_hash64 8 reader code =
          (if IsHashed reader then code else ex_hash64 code) mod 8))"
proof -
  have h: "(1 :: int) = 1" by simp
  have m: "(8 :: 64 word) \<noteq> 0" by simp
  have r: "list_all (list_all (readable ex_fs)) ex_cols"
    using ex_readable by (simp add: list_all_iff)
  show ?thesis
    by (rule conjI [OF h conjI [OF m conjI [OF ex_byName_set conjI [OF r
          index_fill_single_hash [OF h m ex_byName_set ex_readable]]]]])
qed

section \<open>Proofs: kmcp profile, reading the lines\<close>

lemma item_Inr: "i < length items \<Longrightarrow> item items i = Inr (items ! i)"
  by (simp add: item_def)

lemma parse_float_simps:
  "ParseFloat s = None \<Longrightarrow> parse_float ParseFloat what s = Inl (FailedToParse what s)"
  "ParseFloat s = Some v \<Longrightarrow> parse_float ParseFloat what s = Inr v"
  by (simp_all add: parse_float_def)

lemma parse_int_simps:
  "Atoi s = None \<Longrightarrow> parse_int what s = Inl (FailedToParse what s)"
  "Atoi s = Some v \<Longrightarrow> parse_int what s = Inr v"
  by (simp_all add: parse_int_def)

lemma parse_fpr_fails:
  assumes "10 \<le> length items" "ParseFloat (items ! 3) = None"
  shows "parseMatchResult ParseFloat items maxPFR minQ = Inl (FailedToParse ''FPR'' (items ! 3))"
  using assms by (simp add: parseMatchResult_def item_Inr parse_float_simps)

lemma parse_qcov_fails:
  assumes "10 \<le> length items" "ParseFloat (items ! 3) = Some fpr" "\<not> fpr > maxPFR"
    "ParseFloat (items ! 9) = None"
  shows "parseMatchResult ParseFloat items maxPFR minQ = Inl (FailedToParse ''qCov'' (items ! 9))"
  using assms by (simp add: parseMatchResult_def item_Inr parse_float_simps)

lemma parse_int_fails:
  assumes "10 \<le> length items" "ParseFloat (items ! 3) = Some fpr" "\<not> fpr > maxPFR"
    "ParseFloat (items ! 9) = Some qcov" "\<not> qcov < minQ"
    "Atoi (items ! 1) = None \<or> Atoi (items ! 2) = None \<or> Atoi (items ! 4) = None \<or>
     Atoi (items ! 6) = None \<or> Atoi (items ! 7) = None \<or> Atoi (items ! 8) = None"
  shows "\<exists>what s. parseMatchResult ParseFloat items maxPFR minQ = Inl (FailedToParse what s)"
proof -
  have i: "\<And>i. i \<le> 9 \<Longrightarrow> item items i = Inr (items ! i)"
    using assms(1) by (simp add: item_def)
  have p: "\<And>what s. parse_int what s = Inl (FailedToParse what s) \<or> (\<exists>v. Atoi s = Some v \<and> parse_int what s = Inr v)"
    by (auto simp: parse_int_def split: option.splits)
  show ?thesis
    unfolding parseMatchResult_def
    using assms(2-6)
    by (auto simp: i parse_float_simps parse_int_def split: option.splits)
qed

lemma parse_float_Inr: "parse_float ParseFloat what s = Inr v \<Longrightarrow> ParseFloat s = Some v"
  by (simp add: parse_float_def split: option.splits)

lemma parse_skip_only_by_threshold:
  assumes "parseMatchResult ParseFloat items maxPFR minQ = Inr None"
  shows "\<exists>i3 fpr. item items 3 = Inr i3 \<and> ParseFloat i3 = Some fpr \<and>
           (fpr > maxPFR \<or>
            (\<exists>i9 qcov. item items 9 = Inr i9 \<and> ParseFloat i9 = Some qcov \<and> qcov < minQ))"
proof -
  from assms obtain i3 fpr where
    a: "item items 3 = Inr i3" "parse_float ParseFloat ''FPR'' i3 = Inr fpr"
    unfolding parseMatchResult_def by (auto simp: bindE_Inr_iff)
  have f: "ParseFloat i3 = Some fpr" using a(2) by (rule parse_float_Inr)
  show ?thesis
  proof (cases "fpr > maxPFR")
    case True
    with a(1) f show ?thesis by blast
  next
    case False
    with assms a obtain i9 qcov where
      b: "item items 9 = Inr i9" "parse_float ParseFloat ''qCov'' i9 = Inr qcov"
      unfolding parseMatchResult_def by (auto simp: bindE_Inr_iff)
    have q: "ParseFloat i9 = Some qcov" using b(2) by (rule parse_float_Inr)
    have "qcov < minQ"
    proof (rule ccontr)
      assume "\<not> qcov < minQ"
      with assms a b False show False
        unfolding parseMatchResult_def by (auto simp: bindE_Inr_iff)
    qed
    with a(1) f b(1) q show ?thesis by blast
  qed
qed

lemma scan_line_fatal:
  "parseMatchResult ParseFloat items maxF minQ = Inl e \<Longrightarrow>
   scan_line ParseFloat hashString maxF minQ st items = Inl e"
  by (simp add: scan_line_def)

lemma scan_lines_append:
  "scan_lines ParseFloat hashString maxF minQ st (xs @ ys) =
   bindE (scan_lines ParseFloat hashString maxF minQ st xs)
     (\<lambda>st'. scan_lines ParseFloat hashString maxF minQ st' ys)"
  by (induction xs arbitrary: st) (auto simp: bindE_def split: sum.splits)

lemma scan_lines_fatal:
  assumes "scan_lines ParseFloat hashString maxF minQ st pre = Inr st'"
    and "parseMatchResult ParseFloat items maxF minQ = Inl e"
  shows "scan_lines ParseFloat hashString maxF minQ st (pre @ items # post) = Inl e"
  using assms by (simp add: scan_lines_append scan_line_fatal)

lemma profileCmd_fatal:
  assumes "scan_lines ParseFloat hashString (maxFPR opt) (minQcov opt)
             \<lparr>prof = [], pending_matches = [], prevQuery = ''''\<rparr> pre = Inr st"
    and "parseMatchResult ParseFloat items (maxFPR opt) (minQcov opt) = Inl e"
  shows "profileCmd ParseFloat hashString Quicksort opt ((hdr # pre @ items # post) # files) = Inl e"
  using scan_lines_fatal [OF assms]
  by (simp add: profileCmd_def profile_file_def)

text \<open>
  C9 (as amended). A line is passed over only when its FPR is above \<open>maxFPR\<close> or its
  qCov below \<open>minQcov\<close>. A line with the ten fields that is reached by the loop ends the
  run with the fatal error of \<open>checkError\<close>, and no profile is written, when its FPR fails
  to parse, when its FPR passes and its qCov fails to parse, or when both pass and one of
  qLen, qKmers, hits, fragIdx, the number of fragments or mKmers is not an integer.
\<close>

theorem profile_parse_error_is_fatal:
  assumes len: "10 \<le> length items"
    and pre: "scan_lines ParseFloat hashString (maxFPR opt) (minQcov opt)
             \<lparr>prof = [], pending_matches = [], prevQuery = ''''\<rparr> pre = Inr st"
  shows "(ParseFloat (items ! 3) = None \<longrightarrow>
            profileCmd ParseFloat hashString Quicksort opt ((hdr # pre @ items # post) # files) =
              Inl (FailedToParse ''FPR'' (items ! 3))) \<and>
         (\<forall>fpr. ParseFloat (items ! 3) = Some fpr \<and> fpr \<le> maxFPR opt \<and>
            ParseFloat (items ! 9) = None \<longrightarrow>
            profileCmd ParseFloat hashString Quicksort opt ((hdr # pre @ items # post) # files) =
              Inl (FailedToParse ''qCov'' (items ! 9))) \<and>
         (\<forall>fpr qcov. ParseFloat (items ! 3) = Some fpr \<and> fpr \<le> maxFPR opt \<and>
            ParseFloat (items ! 9) = Some qcov \<and> minQcov opt \<le> qcov \<and>
            (Atoi (items ! 1) = None \<or> Atoi (items ! 2) = None \<or> Atoi (items ! 4) = None \<or>
             Atoi (items ! 6) = None \<or> Atoi (items ! 7) = None \<or> Atoi (items ! 8) = None) \<longrightarrow>
            (\<exists>what s. profileCmd ParseFloat hashString Quicksort opt
               ((hdr # pre @ items # post) # files) = Inl (FailedToParse what s))) \<and>
         (parseMatchResult ParseFloat items (maxFPR opt) (minQcov opt) = Inr None \<longrightarrow>
            (\<exists>fpr. ParseFloat (items ! 3) = Some fpr \<and>
               (fpr > maxFPR opt \<or>
                (\<exists>qcov. ParseFloat (items ! 9) = Some qcov \<and> qcov < minQcov opt))))"
proof (intro conjI allI impI)
  assume "ParseFloat (items ! 3) = None"
  from parse_fpr_fails [where ParseFloat = ParseFloat and items = items, OF len this]
    profileCmd_fatal [OF pre]
  show "profileCmd ParseFloat hashString Quicksort opt ((hdr # pre @ items # post) # files) =
              Inl (FailedToParse ''FPR'' (items ! 3))" by blast
next
  fix fpr
  assume "ParseFloat (items ! 3) = Some fpr \<and> fpr \<le> maxFPR opt \<and> ParseFloat (items ! 9) = None"
  then have "ParseFloat (items ! 3) = Some fpr" "\<not> fpr > maxFPR opt" "ParseFloat (items ! 9) = None"
    by auto
  from parse_qcov_fails [where ParseFloat = ParseFloat and items = items, OF len this]
    profileCmd_fatal [OF pre]
  show "profileCmd ParseFloat hashString Quicksort opt ((hdr # pre @ items # post) # files) =
              Inl (FailedToParse ''qCov'' (items ! 9))" by blast
next
  fix fpr qcov
  assume a: "ParseFloat (items ! 3) = Some fpr \<and> fpr \<le> maxFPR opt \<and>
            ParseFloat (items ! 9) = Some qcov \<and> minQcov opt \<le> qcov \<and>
            (Atoi (items ! 1) = None \<or> Atoi (items ! 2) = None \<or> Atoi (items ! 4) = None \<or>
             Atoi (items ! 6) = None \<or> Atoi (items ! 7) = None \<or> Atoi (items ! 8) = None)"
  then have b: "ParseFloat (items ! 3) = Some fpr" "\<not> fpr > maxFPR opt"
    "ParseFloat (items ! 9) = Some qcov" "\<not> qcov < minQcov opt"
    "Atoi (items ! 1) = None \<or> Atoi (items ! 2) = None \<or> Atoi (items ! 4) = None \<or>
     Atoi (items ! 6) = None \<or> Atoi (items ! 7) = None \<or> Atoi (items ! 8) = None"
    by (simp_all add: not_less)
  from parse_int_fails [where ParseFloat = ParseFloat and items = items, OF len b]
  obtain what s where
    "parseMatchResult ParseFloat items (maxFPR opt) (minQcov opt) = Inl (FailedToParse what s)"
    by blast
  from profileCmd_fatal [OF pre this]
  show "\<exists>what s. profileCmd ParseFloat hashString Quicksort opt
               ((hdr # pre @ items # post) # files) = Inl (FailedToParse what s)" by blast
next
  assume "parseMatchResult ParseFloat items (maxFPR opt) (minQcov opt) = Inr None"
  from parse_skip_only_by_threshold [OF this] len
  show "\<exists>fpr. ParseFloat (items ! 3) = Some fpr \<and>
               (fpr > maxFPR opt \<or>
                (\<exists>qcov. ParseFloat (items ! 9) = Some qcov \<and> qcov < minQcov opt))"
    by (auto simp: item_def split: if_splits)
qed

lemma ex_bad_line_fields:
  "10 \<le> length ex_bad_line" "ex_ParseFloat (ex_bad_line ! 3) = Some 0"
  "ex_ParseFloat (ex_bad_line ! 9) = Some (9 / 10)" "Atoi (ex_bad_line ! 6) = None"
  by (simp_all add: ex_bad_line_def ex_hit_def ex_ParseFloat_def Atoi_def is_digit_def
      digits_val_def digit_val_def)

lemma ex_scan_pre:
  "scan_lines ex_ParseFloat ex_hashString (maxFPR ex_profile_options) (minQcov ex_profile_options)
     \<lparr>prof = [], pending_matches = [], prevQuery = ''''\<rparr> [ex_hit ''read1'' ''A'' ''0'' ''1'' ''0.9'']
   = Inr ex_scan_state"
  by code_simp

theorem profile_parse_error_is_fatal_witness:
  "10 \<le> length ex_bad_line \<and>
   scan_lines ex_ParseFloat ex_hashString (maxFPR ex_profile_options) (minQcov ex_profile_options)
     \<lparr>prof = [], pending_matches = [], prevQuery = ''''\<rparr> [ex_hit ''read1'' ''A'' ''0'' ''1'' ''0.9'']
     = Inr ex_scan_state \<and>
   ex_ParseFloat (ex_bad_line ! 3) = Some 0 \<and> 0 \<le> maxFPR ex_profile_options \<and>
   ex_ParseFloat (ex_bad_line ! 9) = Some (9 / 10) \<and> minQcov ex_profile_options \<le> 9 / 10 \<and>
   Atoi (ex_bad_line ! 6) = None \<and>
   (\<exists>what s. profileCmd ex_ParseFloat ex_hashString ex_Quicksort ex_profile_options
      [ex_bad_file] = Inl (FailedToParse what s))"
proof -
  have t: "0 \<le> maxFPR ex_profile_options" "minQcov ex_profile_options \<le> 9 / 10"
    by (simp_all add: ex_profile_options_def)
  from profile_parse_error_is_fatal [OF ex_bad_line_fields(1) ex_scan_pre,
      of ex_Quicksort ex_header "[ex_hit ''read2'' ''A'' ''0'' ''1'' ''0.9'']" "[]"]
  have "\<forall>fpr qcov. ex_ParseFloat (ex_bad_line ! 3) = Some fpr \<and> fpr \<le> maxFPR ex_profile_options \<and>
            ex_ParseFloat (ex_bad_line ! 9) = Some qcov \<and> minQcov ex_profile_options \<le> qcov \<and>
            (Atoi (ex_bad_line ! 1) = None \<or> Atoi (ex_bad_line ! 2) = None \<or>
             Atoi (ex_bad_line ! 4) = None \<or> Atoi (ex_bad_line ! 6) = None \<or>
             Atoi (ex_bad_line ! 7) = None \<or> Atoi (ex_bad_line ! 8) = None) \<longrightarrow>
            (\<exists>what s. profileCmd ex_ParseFloat ex_hashString ex_Quicksort ex_profile_options
               ((ex_header # [ex_hit ''read1'' ''A'' ''0'' ''1'' ''0.9''] @ ex_bad_line #
                  [ex_hit ''read2'' ''A'' ''0'' ''1'' ''0.9'']) # []) = Inl (FailedToParse what s))"
    by blast
  with ex_bad_line_fields(2,3,4) t
  have "\<exists>what s. profileCmd ex_ParseFloat ex_hashString ex_Quicksort ex_profile_options
      [ex_bad_file] = Inl (FailedToParse what s)"
    unfolding ex_bad_file_def by blast
  with ex_bad_line_fields ex_scan_pre t show ?thesis by blast
qed

text \<open>
  C9 as stated fails: the run over a file whose third line has the fragment index \<open>x\<close>
  ends with the fatal error and writes no profile.
\<close>

theorem profile_parse_error_counterexample:
  "profileCmd ex_ParseFloat ex_hashString ex_Quicksort ex_profile_options [ex_bad_file] =
     Inl (FailedToParse ''fragIdx'' ''x'')"
  by code_simp






lemma keys_map_store: "fst ` set (map_store k v m) = insert k (fst ` set m)"
  by (force simp: map_store_def image_iff split: if_splits)





























text \<open>
  The run against C7: \<open>A\<close> has the smaller \<open>fragsProp\<close> and the larger mean abundance, so
  \<open>Less\<close> orders neither of \<open>A\<close> and \<open>B\<close> before the other, and \<open>A\<close> is written first.
\<close>

theorem profile_sort_order_failing_run:
  "profileCmd ex_ParseFloat ex_hashString ex_Quicksort ex_profile_options [ex_two_targets] =
     Inr [ex_target_A, ex_target_B] \<and>
   FragsProp ex_target_A < FragsProp ex_target_B \<and>
   MeanAbundance ex_target_B < MeanAbundance ex_target_A \<and>
   \<not> Less ex_target_A ex_target_B \<and> \<not> Less ex_target_B ex_target_A"
  by code_simp



subsection \<open>The credit of one query\<close>
















lemma scan_lines_same_query:
  assumes "list_all2 (\<lambda>items m. parseMatchResult ParseFloat items maxF minQ = Inr (Some m) \<and>
                        Query m = q) lines hits"
    and "prevQuery st = q"
  shows "scan_lines ParseFloat hashString maxF minQ st lines =
     Inr (st\<lparr>pending_matches := foldl (add_match hashString) (pending_matches st) hits\<rparr>)"
  using assms
proof (induction lines hits arbitrary: st rule: list_all2_induct)
  case Nil
  then show ?case by simp
next
  case (Cons items lines m hits)
  let ?st1 = "st\<lparr>pending_matches := add_match hashString (pending_matches st) m\<rparr>"
  from Cons.hyps(1) Cons.prems
  have s: "scan_line ParseFloat hashString maxF minQ st items = Inr ?st1"
    by (simp add: scan_line_def)
  from Cons.prems have "prevQuery ?st1 = q" by simp
  from Cons.IH [OF this] s show ?case by simp
qed

lemma profile_file_one_query:
  assumes "list_all2 (\<lambda>items m. parseMatchResult ParseFloat items maxF minQ = Inr (Some m) \<and>
                        Query m = q) lines hits"
  shows "profile_file ParseFloat hashString maxF minQ p (header # lines) =
     credit_matches p (query_matches hashString hits)"
proof (cases lines)
  case Nil
  with assms show ?thesis by (simp add: profile_file_def query_matches_def)
next
  case (Cons items rest)
  with assms obtain m ms where
    h: "hits = m # ms" and
    m: "parseMatchResult ParseFloat items maxF minQ = Inr (Some m)" "Query m = q" and
    r: "list_all2 (\<lambda>items m. parseMatchResult ParseFloat items maxF minQ = Inr (Some m) \<and>
                        Query m = q) rest ms"
    by (auto simp: list_all2_Cons1)
  let ?st1 = "\<lparr>prof = p, pending_matches = add_match hashString [] m, prevQuery = q\<rparr>"
  from m
  have s: "scan_line ParseFloat hashString maxF minQ
      \<lparr>prof = p, pending_matches = [], prevQuery = ''''\<rparr> items = Inr ?st1"
    by (auto simp: scan_line_def)
  have "prevQuery ?st1 = q" by simp
  from scan_lines_same_query [OF r this, of hashString] s Cons h
  show ?thesis by (simp add: profile_file_def query_matches_def)
qed



lemma ex_multi_file_run:
  "profile_file ex_ParseFloat ex_hashString (1 / 1000) (7 / 10) [] ex_multi_file =
     Inr ex_multi_profile"
  by code_simp




end
